theory Spec2Isabelle
  imports Complex_Main
begin

section \<open>Values, rows and the store\<close>

text \<open>
  The controllers read their arguments from a JSON request body. A field is absent
  (\<open>undefined\<close> after destructuring), \<open>null\<close>, or a string; other JSON types are not
  modelled. Strings are ASCII, so that \<open>length\<close> is JavaScript's \<open>.length\<close>.
\<close>

datatype jv = JUndefined | JNull | JStr string

text \<open>JavaScript truthiness, as used by \<open>title && ...\<close> and \<open>status || 'draft'\<close>.\<close>

fun truthy :: "jv \<Rightarrow> bool" where
  "truthy (JStr s) = (s \<noteq> [])"
| "truthy JUndefined = False"
| "truthy JNull = False"

text \<open>The column type \<open>ENUM('active', 'draft', 'archived')\<close> of \<open>Post.status\<close>.\<close>

datatype status = Active | Draft | Archived

fun status_of_string :: "string \<Rightarrow> status option" where
  "status_of_string s =
     (if s = ''active'' then Some Active
      else if s = ''draft'' then Some Draft
      else if s = ''archived'' then Some Archived
      else None)"

record user =
  u_id :: nat
  u_firstName :: string
  u_lastName :: string
  u_email :: string

text \<open>
  \<open>title\<close>, \<open>content\<close> and \<open>userId\<close> are declared \<open>allowNull: false\<close>; \<open>status\<close> has a
  default but no \<open>allowNull: false\<close>, so the column can hold \<open>NULL\<close> (\<open>None\<close>).
  \<open>p_createdAt\<close> is the timestamp the ORM sets on insert.
\<close>

record post =
  p_id :: nat
  p_title :: string
  p_content :: string
  p_userId :: nat
  p_status :: "status option"
  p_createdAt :: nat

record tag =
  t_id :: nat
  t_name :: string

text \<open>A row of the join table \<open>PostTag\<close>: \<open>(postId, tagId)\<close>.\<close>

type_synonym postTag = "nat \<times> nat"

text \<open>What the two \<open>afterCreate\<close> hooks write with \<open>console.log\<close>.\<close>

datatype log_line =
  UserRegistered string string string
| PostCreated string string string "status option"

text \<open>
  The store: the tables of users, posts, tags and join rows, the id sequences of the three
  tables with a surrogate key, and the console. A sequence value, once drawn, is never handed out
  again (the storage engine does not rewind sequences on rollback), and console output is
  never undone. The \<open>Profile\<close> table and the \<open>updatedAt\<close> columns are not modelled.
\<close>

record db =
  users :: "user list"
  posts :: "post list"
  tags :: "tag list"
  postTags :: "postTag list"
  userSeq :: nat
  postSeq :: nat
  tagSeq :: nat
  console :: "log_line list"

definition empty_db :: db where
  "empty_db = \<lparr>users = [], posts = [], tags = [], postTags = [],
                userSeq = 1, postSeq = 1, tagSeq = 1, console = []\<rparr>"

text \<open>
  The environment of a request: the \<open>isEmail\<close> validator of the validation library (not
  part of the repository, taken as a parameter), the clock, and whether the lookup made by
  the \<open>Post\<close> hook raises a storage error.
\<close>

record env =
  isEmail :: "string \<Rightarrow> bool"
  clock :: nat
  hookLookupFails :: bool

text \<open>
  Errors raised by the ORM or thrown by a controller. In the ORM's class hierarchy a
  unique-constraint error is a validation error.
\<close>

datatype orm_error =
  ValidationError string
| UniqueConstraintError string
| DatabaseError string
| ScopeError string
| AppError string
| TypeError string
| ConnectionError

fun is_validation_error :: "orm_error \<Rightarrow> bool" where
  "is_validation_error (ValidationError _) = True"
| "is_validation_error (UniqueConstraintError _) = True"
| "is_validation_error _ = False"

text \<open>
  The four shapes of response the controllers send: \<open>res.status(c).json(payload)\<close>,
  \<open>res.status(c).json({ message: m })\<close>, \<open>res.status(c).json({ error: error.message })\<close>,
  and \<open>res.status(c).send()\<close>.
\<close>

datatype 'a response =
  Json nat 'a
| Message nat string
| Failure nat orm_error
| NoBody nat

section \<open>ORM primitives on the User table\<close>

definition User_findByPk :: "db \<Rightarrow> nat \<Rightarrow> user option" where
  "User_findByPk d k = find (\<lambda>u. u_id u = k) (users d)"

text \<open>
  \<open>User.create\<close>: the \<open>allowNull: false\<close> and \<open>isEmail\<close> validations run first; the insert
  draws an id and fails on the unique index of \<open>email\<close>; after a successful insert the
  \<open>afterCreate\<close> hook logs the registration.
\<close>

definition User_create :: "env \<Rightarrow> db \<Rightarrow> jv \<Rightarrow> jv \<Rightarrow> jv \<Rightarrow> (orm_error + user) \<times> db" where
  "User_create e d fname lname em =
     (case fname of
        JStr f \<Rightarrow>
          (case lname of
             JStr l \<Rightarrow>
               (case em of
                  JStr m \<Rightarrow>
                    if \<not> isEmail e m then (Inl (ValidationError ''email''), d)
                    else if m \<in> set (map u_email (users d)) then
                      (Inl (UniqueConstraintError ''email''), d\<lparr>userSeq := Suc (userSeq d)\<rparr>)
                    else
                      (let u = \<lparr>u_id = userSeq d, u_firstName = f, u_lastName = l, u_email = m\<rparr>
                       in (Inr u, d\<lparr>users := users d @ [u], userSeq := Suc (userSeq d),
                                     console := console d @ [UserRegistered f l m]\<rparr>))
                | _ \<Rightarrow> (Inl (ValidationError ''email''), d))
           | _ \<Rightarrow> (Inl (ValidationError ''lastName''), d))
      | _ \<Rightarrow> (Inl (ValidationError ''firstName''), d))"

text \<open>
  \<open>Model.update(values, { where: { id } })\<close>: keys whose value is \<open>undefined\<close> are dropped
  (when none is left no statement is run and the result is 0), the remaining values are
  validated, and every row with that id is updated; the unique
  index of \<open>email\<close> rejects the statement when it touches a row and another row already
  holds the new email. The result is the number of affected rows.
\<close>

fun assign :: "jv \<Rightarrow> string \<Rightarrow> string" where
  "assign (JStr s) old = s"
| "assign _ old = old"

definition user_assign :: "nat \<Rightarrow> jv \<Rightarrow> jv \<Rightarrow> jv \<Rightarrow> user \<Rightarrow> user" where
  "user_assign k fname lname em u =
     (if u_id u = k
      then u\<lparr>u_firstName := assign fname (u_firstName u),
             u_lastName := assign lname (u_lastName u),
             u_email := assign em (u_email u)\<rparr>
      else u)"

definition User_update :: "env \<Rightarrow> db \<Rightarrow> nat \<Rightarrow> jv \<Rightarrow> jv \<Rightarrow> jv \<Rightarrow> (orm_error + nat) \<times> db" where
  "User_update e d k fname lname em =
     (if fname = JUndefined \<and> lname = JUndefined \<and> em = JUndefined then (Inr 0, d)
      else if fname = JNull then (Inl (ValidationError ''firstName''), d)
      else if lname = JNull then (Inl (ValidationError ''lastName''), d)
      else if em = JNull then (Inl (ValidationError ''email''), d)
      else if (case em of JStr m \<Rightarrow> \<not> isEmail e m | _ \<Rightarrow> False) then
        (Inl (ValidationError ''email''), d)
      else if (case em of
                 JStr m \<Rightarrow> filter (\<lambda>u. u_id u = k) (users d) \<noteq> [] \<and>
                           filter (\<lambda>u. u_id u \<noteq> k \<and> u_email u = m) (users d) \<noteq> []
               | _ \<Rightarrow> False) then
        (Inl (UniqueConstraintError ''email''), d)
      else
        (Inr (length (filter (\<lambda>u. u_id u = k) (users d))),
         d\<lparr>users := map (user_assign k fname lname em) (users d)\<rparr>))"

text \<open>
  \<open>User.destroy({ where: { id } })\<close> answers with the number of users it deleted. The
  foreign keys are declared \<open>ON DELETE CASCADE\<close>: the posts of a deleted user go with it,
  and with them their join rows.
\<close>

definition User_destroy :: "db \<Rightarrow> nat \<Rightarrow> nat \<times> db" where
  "User_destroy d k =
     (let deleted = length (filter (\<lambda>u. u_id u = k) (users d));
          gone = map p_id (filter (\<lambda>p. p_userId p = k) (posts d))
      in if deleted = 0 then (0, d)
         else (deleted,
               d\<lparr>users := filter (\<lambda>u. u_id u \<noteq> k) (users d),
                  posts := filter (\<lambda>p. p_userId p \<noteq> k) (posts d),
                  postTags := filter (\<lambda>l. fst l \<notin> set gone) (postTags d)\<rparr>))"

section \<open>The user controller\<close>

record user_body =
  ub_firstName :: jv
  ub_lastName :: jv
  ub_email :: jv

definition createUser :: "env \<Rightarrow> db \<Rightarrow> user_body \<Rightarrow> user response \<times> db" where
  "createUser e d b =
     (case User_create e d (ub_firstName b) (ub_lastName b) (ub_email b) of
        (Inr u, d') \<Rightarrow> (Json 201 u, d')
      | (Inl err, d') \<Rightarrow> (Failure 400 err, d'))"

definition updateUser :: "env \<Rightarrow> db \<Rightarrow> nat \<Rightarrow> user_body \<Rightarrow> user option response \<times> db" where
  "updateUser e d k b =
     (case User_update e d k (ub_firstName b) (ub_lastName b) (ub_email b) of
        (Inr updated, d') \<Rightarrow>
          if updated \<noteq> 0 then (Json 200 (User_findByPk d' k), d')
          else (Message 404 ''User not found'', d')
      | (Inl err, d') \<Rightarrow> (Failure 500 err, d'))"

definition deleteUser :: "db \<Rightarrow> nat \<Rightarrow> unit response \<times> db" where
  "deleteUser d k =
     (case User_destroy d k of
        (deleted, d') \<Rightarrow>
          if deleted \<noteq> 0 then (NoBody 204, d') else (Message 404 ''User not found'', d'))"

section \<open>ORM primitives on posts, tags and the join table\<close>

definition Post_findByPk :: "db \<Rightarrow> nat \<Rightarrow> post option" where
  "Post_findByPk d k = find (\<lambda>p. p_id p = k) (posts d)"

definition Tag_findByPk :: "db \<Rightarrow> nat \<Rightarrow> tag option" where
  "Tag_findByPk d k = find (\<lambda>g. t_id g = k) (tags d)"

text \<open>
  A transaction object, as returned by \<open>sequelize.transaction()\<close>. Only statements that are
  passed \<open>{ transaction }\<close> run inside it (the repository does not enable the ORM's
  continuation-local storage): their rows are pending until \<open>commit\<close> and are
  discarded by \<open>rollback\<close>. Every other statement acts on the committed store at once.
\<close>

record txn =
  tx_posts :: "post list"
  tx_postTags :: "postTag list"

definition transaction :: txn where
  "transaction = \<lparr>tx_posts = [], tx_postTags = []\<rparr>"

definition commit :: "db \<Rightarrow> txn \<Rightarrow> db" where
  "commit d t = d\<lparr>posts := posts d @ tx_posts t, postTags := postTags d @ tx_postTags t\<rparr>"

definition rollback :: "db \<Rightarrow> txn \<Rightarrow> db" where
  "rollback d t = d"

text \<open>
  The \<open>afterCreate\<close> hook of \<open>Post\<close>: it looks the author up (outside any transaction) and
  logs a line when the author exists. The hook has no error handler of its own, so an
  error of its lookup is an error of the hook.
\<close>

definition Post_afterCreate :: "env \<Rightarrow> db \<Rightarrow> post \<Rightarrow> (orm_error + unit) \<times> db" where
  "Post_afterCreate e d p =
     (if hookLookupFails e then (Inl ConnectionError, d)
      else case User_findByPk d (p_userId p) of
             Some u \<Rightarrow>
               (Inr (), d\<lparr>console := console d @
                           [PostCreated (u_firstName u) (u_lastName u) (p_title p) (p_status p)]\<rparr>)
           | None \<Rightarrow> (Inr (), d))"

text \<open>
  \<open>Post.create(values, { transaction })\<close>: validation of the \<open>allowNull: false\<close> columns,
  the insert inside the transaction (an unknown status is refused by the enum column),
  then the \<open>afterCreate\<close> hook, which the ORM awaits as part of \<open>create\<close>: an error of the
  hook is an error of \<open>create\<close>.
\<close>

definition Post_create ::
  "env \<Rightarrow> db \<Rightarrow> txn \<Rightarrow> jv \<Rightarrow> jv \<Rightarrow> nat \<Rightarrow> jv \<Rightarrow> (orm_error + post) \<times> db \<times> txn" where
  "Post_create e d t title content uid st =
     (case title of
        JStr ti \<Rightarrow>
          (case content of
             JStr co \<Rightarrow>
               if (case st of JStr s \<Rightarrow> status_of_string s = None | _ \<Rightarrow> False) then
                 (Inl (DatabaseError ''status''), d, t)
               else
                 (let p = \<lparr>p_id = postSeq d, p_title = ti, p_content = co, p_userId = uid,
                           p_status = (case st of JStr s \<Rightarrow> status_of_string s
                                       | JUndefined \<Rightarrow> Some Draft | JNull \<Rightarrow> None),
                           p_createdAt = clock e\<rparr>;
                      d1 = d\<lparr>postSeq := Suc (postSeq d)\<rparr>;
                      t1 = t\<lparr>tx_posts := tx_posts t @ [p]\<rparr>
                  in case Post_afterCreate e d1 p of
                       (Inl err, d2) \<Rightarrow> (Inl err, d2, t1)
                     | (Inr _, d2) \<Rightarrow> (Inr p, d2, t1))
           | _ \<Rightarrow> (Inl (ValidationError ''content''), d, t))
      | _ \<Rightarrow> (Inl (ValidationError ''title''), d, t))"

text \<open>
  \<open>Tag.findOrCreate({ where: { name } })\<close>, called without a transaction: it finds the
  first tag with that name or inserts one, in a transaction of its own that is committed
  before the call returns. A \<open>null\<close> name matches no row and fails the \<open>allowNull: false\<close>
  validation of the insert; an \<open>undefined\<close> name is refused when the query is built.
  The result is the pair \<open>[instance, created]\<close>.
\<close>

definition Tag_findOrCreate :: "db \<Rightarrow> jv \<Rightarrow> (orm_error + tag \<times> bool) \<times> db" where
  "Tag_findOrCreate d n =
     (case n of
        JStr s \<Rightarrow>
          (case find (\<lambda>g. t_name g = s) (tags d) of
             Some g \<Rightarrow> (Inr (g, False), d)
           | None \<Rightarrow>
               (let g = \<lparr>t_id = tagSeq d, t_name = s\<rparr>
                in (Inr (g, True), d\<lparr>tags := tags d @ [g], tagSeq := Suc (tagSeq d)\<rparr>)))
      | JNull \<Rightarrow> (Inl (ValidationError ''name''), d)
      | JUndefined \<Rightarrow> (Inl (AppError ''WHERE parameter name has invalid undefined value''), d))"

text \<open>
  \<open>tags.map(tagName => Tag.findOrCreate(...))\<close> starts one call per name; every call runs
  to its end whatever happens to the others. The calls are taken in list order (their
  interleaving is not modelled).
\<close>

fun findOrCreate_each :: "db \<Rightarrow> jv list \<Rightarrow> (orm_error + tag \<times> bool) list \<times> db" where
  "findOrCreate_each d [] = ([], d)"
| "findOrCreate_each d (n # ns) =
     (case Tag_findOrCreate d n of
        (r, d1) \<Rightarrow> (case findOrCreate_each d1 ns of (rs, d2) \<Rightarrow> (r # rs, d2)))"

text \<open>\<open>Promise.all\<close>: all the values, or the first rejection.\<close>

fun Promise_all :: "(orm_error + 'a) list \<Rightarrow> orm_error + 'a list" where
  "Promise_all [] = Inr []"
| "Promise_all (Inl err # rs) = Inl err"
| "Promise_all (Inr x # rs) =
     (case Promise_all rs of Inl err \<Rightarrow> Inl err | Inr xs \<Rightarrow> Inr (x # xs))"

text \<open>
  The association method \<open>addTags\<close>/\<open>addTag\<close> of the many-to-many relation: it reads the
  join rows of the post for the given tags, and inserts in one statement a row for every
  given tag that has none. The key of the join table is the pair of its two columns, so
  the insert of the same pair twice is refused. \<open>unassociated\<close> takes the join rows the
  statement can see, \<open>Post_addTags\<close> runs it inside a transaction.
\<close>

definition unassociated :: "postTag list \<Rightarrow> nat \<Rightarrow> nat list \<Rightarrow> orm_error + postTag list" where
  "unassociated visible pid tids =
     (let new = filter (\<lambda>k. (pid, k) \<notin> set visible) tids
      in if distinct new then Inr (map (Pair pid) new)
         else Inl (UniqueConstraintError ''PostTags_pkey''))"

definition Post_addTags :: "db \<Rightarrow> txn \<Rightarrow> nat \<Rightarrow> nat list \<Rightarrow> (orm_error + unit) \<times> txn" where
  "Post_addTags d t pid tids =
     (case unassociated (postTags d @ tx_postTags t) pid tids of
        Inl err \<Rightarrow> (Inl err, t)
      | Inr rows \<Rightarrow> (Inr (), t\<lparr>tx_postTags := tx_postTags t @ rows\<rparr>))"

text \<open>Eager loading \<open>include: [User, Tag]\<close>: the author and the tags joined to a post.\<close>

record post_view =
  pv_post :: post
  pv_user :: "user option"
  pv_tags :: "tag list"

definition Post_tags :: "db \<Rightarrow> nat \<Rightarrow> tag list" where
  "Post_tags d pid =
     concat (map (\<lambda>l. filter (\<lambda>g. t_id g = snd l) (tags d))
                 (filter (\<lambda>l. fst l = pid) (postTags d)))"

definition include_User_Tag :: "db \<Rightarrow> post \<Rightarrow> post_view" where
  "include_User_Tag d p =
     \<lparr>pv_post = p, pv_user = User_findByPk d (p_userId p), pv_tags = Post_tags d (p_id p)\<rparr>"

section \<open>The post controller\<close>

subsection \<open>createPost\<close>

record post_body =
  pb_title :: jv
  pb_content :: jv
  pb_userId :: "nat option"
  pb_tags :: "jv list option"
  pb_status :: jv

text \<open>\<open>status || 'draft'\<close>.\<close>

definition or_default :: "jv \<Rightarrow> string \<Rightarrow> jv" where
  "or_default v dflt = (if truthy v then v else JStr dflt)"

text \<open>
  The body of \<open>if (tags && tags.length > 0)\<close>: find or create every tag (no transaction
  passed), wait for all of them, then link them to the post inside the transaction.
\<close>

definition attach_tags :: "db \<Rightarrow> txn \<Rightarrow> post \<Rightarrow> jv list \<Rightarrow> (orm_error + unit) \<times> db \<times> txn" where
  "attach_tags d t p ns =
     (case findOrCreate_each d ns of
        (rs, d1) \<Rightarrow>
          (case Promise_all rs of
             Inl err \<Rightarrow> (Inl err, d1, t)
           | Inr tagInstances \<Rightarrow>
               (case Post_addTags d1 t (p_id p) (map (\<lambda>r. t_id (fst r)) tagInstances) of
                  (r, t1) \<Rightarrow> (r, d1, t1))))"

text \<open>
  The transaction is opened first; every \<open>throw\<close> inside the \<open>try\<close> block ends in the
  \<open>catch\<close> block, which rolls the transaction back and answers 400 with the error's
  message. \<open>User.findByPk(undefined)\<close> finds nothing; the user found has the \<open>userId\<close> of
  the body as its id, which is the \<open>userId\<close> the post is created with.
\<close>

definition createPost :: "env \<Rightarrow> db \<Rightarrow> post_body \<Rightarrow> post response \<times> db" where
  "createPost e d b =
     (let t = transaction in
      case (case pb_userId b of None \<Rightarrow> None | Some k \<Rightarrow> User_findByPk d k) of
        None \<Rightarrow> (Failure 400 (AppError ''User not found''), rollback d t)
      | Some user \<Rightarrow>
          (case Post_create e d t (pb_title b) (pb_content b) (u_id user)
                  (or_default (pb_status b) ''draft'') of
             (Inl err, d1, t1) \<Rightarrow> (Failure 400 err, rollback d1 t1)
           | (Inr p, d1, t1) \<Rightarrow>
               (case (case pb_tags b of
                        Some (n # ns) \<Rightarrow> attach_tags d1 t1 p (n # ns)
                      | _ \<Rightarrow> (Inr (), d1, t1)) of
                  (Inl err, d2, t2) \<Rightarrow> (Failure 400 err, rollback d2 t2)
                | (Inr _, d2, t2) \<Rightarrow> (Json 201 p, commit d2 t2))))"

subsection \<open>getAllPosts\<close>

text \<open>
  The query string: \<open>page\<close> and \<open>limit\<close> are integers when present (other strings are not
  modelled), \<open>status\<close> is any string. Destructuring supplies the defaults \<open>1\<close>, \<open>10\<close> and
  \<open>'active'\<close> for a parameter that is absent.
\<close>

record list_query =
  q_page :: "int option"
  q_limit :: "int option"
  q_status :: "string option"

text \<open>The \<open>scopes\<close> option of the \<open>Post\<close> model.\<close>

definition scopes :: "(string \<times> status) list" where
  "scopes = [(''active'', Active), (''archived'', Archived), (''draft'', Draft)]"

text \<open>
  \<open>Post.scope(arg)\<close>. A falsy argument (none at all, or the empty string) gives the model
  without any scope. \<open>'defaultScope'\<close> names the model's default scope, which is empty.
  Any other name is read as the property \<open>scopes[name]\<close> of the object literal above: a
  name defined there gives its \<open>where\<close> clause, and a name that resolves to nothing raises
  the ORM's scope error. The object literal inherits the properties of
  \<open>Object.prototype\<close>, so their names resolve too: \<open>constructor\<close>, \<open>__proto__\<close> and
  \<open>toString\<close> end in a truthy value that holds no \<open>where\<close> clause; \<open>isPrototypeOf\<close> is
  called, returns \<open>false\<close> and is refused like a name that resolves to nothing; the other
  inherited functions throw a \<open>TypeError\<close> when they are called without a receiver.
  The result is the filter on rows, \<open>None\<close> for no filter.
\<close>

definition inherited_truthy :: "string list" where
  "inherited_truthy = [''constructor'', ''__proto__'', ''toString'']"

definition inherited_throwing :: "string list" where
  "inherited_throwing =
     [''valueOf'', ''hasOwnProperty'', ''toLocaleString'', ''propertyIsEnumerable'',
      ''__defineGetter__'', ''__defineSetter__'', ''__lookupGetter__'', ''__lookupSetter__'']"

definition Object_prototype_names :: "string list" where
  "Object_prototype_names = inherited_truthy @ inherited_throwing @ [''isPrototypeOf'']"

definition Post_scope :: "string option \<Rightarrow> orm_error + status option" where
  "Post_scope arg =
     (case arg of
        None \<Rightarrow> Inr None
      | Some name \<Rightarrow>
          if name = [] then Inr None
          else if name = ''defaultScope'' then Inr None
          else case map_of scopes name of
                 Some st \<Rightarrow> Inr (Some st)
               | None \<Rightarrow>
                   if name \<in> set inherited_truthy then Inr None
                   else if name \<in> set inherited_throwing then Inl (TypeError name)
                   else Inl (ScopeError name))"

definition in_scope :: "status option \<Rightarrow> post \<Rightarrow> bool" where
  "in_scope sc p = (case sc of None \<Rightarrow> True | Some st \<Rightarrow> p_status p = Some st)"

text \<open>
  \<open>findAndCountAll({ include: [User, Tag], limit, offset, order: [['createdAt', 'DESC']] })\<close>
  on a scoped model runs two statements.

  The rows: the posts in scope, newest first (posts created at the same instant keep
  their table order, reversed), \<open>offset\<close> skipped and at most \<open>limit\<close> kept, each with its
  author and tags. The storage engine refuses a negative \<open>LIMIT\<close> or \<open>OFFSET\<close>.

  The count: \<open>COUNT("Post"."id")\<close> over the posts in scope left-joined with their author
  and their tags. The call does not pass \<open>distinct: true\<close>, so a post counts once for each
  of its tags, and once when it has none.
\<close>

definition newest_first :: "post list \<Rightarrow> post list" where
  "newest_first ps = rev (sort_key p_createdAt ps)"

definition join_rows :: "db \<Rightarrow> post \<Rightarrow> nat" where
  "join_rows d p = max 1 (length (Post_tags d (p_id p)))"

record 'a counted =
  count :: nat
  rows :: "'a list"

definition Post_findAndCountAll ::
  "db \<Rightarrow> status option \<Rightarrow> int \<Rightarrow> int \<Rightarrow> orm_error + post_view counted" where
  "Post_findAndCountAll d sc lmt ofs =
     (if lmt < 0 \<or> ofs < 0 then Inl (DatabaseError ''LIMIT/OFFSET must not be negative'')
      else
        (let matching = filter (in_scope sc) (posts d);
             c = sum_list (map (join_rows d) matching);
             page = take (nat lmt) (drop (nat ofs) (newest_first matching))
         in Inr \<lparr>count = c, rows = (if c = 0 then [] else map (include_User_Tag d) page)\<rparr>))"

text \<open>
  The response body. \<open>Math.ceil(posts.count / limit)\<close> is not a finite number when
  \<open>limit\<close> is zero and is then serialised as \<open>null\<close> (\<open>None\<close>).
\<close>

record post_page =
  pg_posts :: "post_view list"
  pg_totalPages :: "int option"
  pg_currentPage :: int

definition ceil_div :: "nat \<Rightarrow> int \<Rightarrow> int option" where
  "ceil_div c lmt = (if lmt = 0 then None else Some \<lceil>real c / real_of_int lmt\<rceil>)"

text \<open>
  The read itself, which is the body of the handler's \<open>try\<close> block: for the scope name
  handed to \<open>Post.scope\<close> (\<open>None\<close> when no name is handed over), a page and a limit.
\<close>

definition listContent :: "db \<Rightarrow> string option \<Rightarrow> int \<Rightarrow> int \<Rightarrow> post_page response" where
  "listContent d status page limit =
     (let offset = (page - 1) * limit
      in case Post_scope status of
           Inl err \<Rightarrow> Failure 500 err
         | Inr sc \<Rightarrow>
             (case Post_findAndCountAll d sc limit offset of
                Inl err \<Rightarrow> Failure 500 err
              | Inr found \<Rightarrow>
                  Json 200 \<lparr>pg_posts = rows found,
                            pg_totalPages = ceil_div (count found) limit,
                            pg_currentPage = page\<rparr>))"

text \<open>
  The handler: the destructuring of the query string fills in the defaults, so the read
  is always handed a scope name.
\<close>

definition getAllPosts :: "db \<Rightarrow> list_query \<Rightarrow> post_page response" where
  "getAllPosts d q =
     listContent d
       (Some (case q_status q of None \<Rightarrow> ''active'' | Some s \<Rightarrow> s))
       (case q_page q of None \<Rightarrow> 1 | Some n \<Rightarrow> n)
       (case q_limit q of None \<Rightarrow> 10 | Some n \<Rightarrow> n)"

subsection \<open>getPostById\<close>

definition getPostById :: "db \<Rightarrow> nat \<Rightarrow> post_view response" where
  "getPostById d k =
     (case Post_findByPk d k of
        None \<Rightarrow> Message 404 ''Post not found''
      | Some p \<Rightarrow> Json 200 (include_User_Tag d p))"

subsection \<open>updatePost\<close>

record update_body =
  upb_title :: jv
  upb_content :: jv
  upb_status :: jv

text \<open>
  \<open>Post.update({ title, content, status }, { where: { id } })\<close>: \<open>undefined\<close> values are
  dropped (when none is left no statement is run and the result is 0); \<open>null\<close> fails the validation of an \<open>allowNull: false\<close> column and is stored in
  \<open>status\<close>; a string outside the enum is refused by the column.
\<close>

definition post_assign :: "nat \<Rightarrow> jv \<Rightarrow> jv \<Rightarrow> jv \<Rightarrow> post \<Rightarrow> post" where
  "post_assign k title content st p =
     (if p_id p = k
      then p\<lparr>p_title := assign title (p_title p),
             p_content := assign content (p_content p),
             p_status := (case st of JStr s \<Rightarrow> status_of_string s
                          | JNull \<Rightarrow> None
                          | JUndefined \<Rightarrow> p_status p)\<rparr>
      else p)"

definition Post_update :: "db \<Rightarrow> nat \<Rightarrow> jv \<Rightarrow> jv \<Rightarrow> jv \<Rightarrow> (orm_error + nat) \<times> db" where
  "Post_update d k title content st =
     (if title = JUndefined \<and> content = JUndefined \<and> st = JUndefined then (Inr 0, d)
      else if title = JNull then (Inl (ValidationError ''title''), d)
      else if content = JNull then (Inl (ValidationError ''content''), d)
      else if (case st of JStr s \<Rightarrow> status_of_string s = None | _ \<Rightarrow> False) then
        (Inl (DatabaseError ''status''), d)
      else
        (Inr (length (filter (\<lambda>p. p_id p = k) (posts d))),
         d\<lparr>posts := map (post_assign k title content st) (posts d)\<rparr>))"

text \<open>The guard \<open>title && title.length < 5\<close>.\<close>

definition title_too_short :: "jv \<Rightarrow> bool" where
  "title_too_short title =
     (truthy title \<and> (case title of JStr s \<Rightarrow> length s < 5 | _ \<Rightarrow> False))"

definition updatePost :: "db \<Rightarrow> nat \<Rightarrow> update_body \<Rightarrow> post option response \<times> db" where
  "updatePost d k b =
     (if title_too_short (upb_title b) then
        (Failure 400 (AppError ''Title must be at least 5 characters long.''), d)
      else case Post_update d k (upb_title b) (upb_content b) (upb_status b) of
             (Inr updated, d1) \<Rightarrow>
               if updated \<noteq> 0 then (Json 200 (Post_findByPk d1 k), d1)
               else (Message 404 ''Post not found'', d1)
           | (Inl err, d1) \<Rightarrow> (Failure 400 err, d1))"

subsection \<open>deletePost\<close>

text \<open>
  \<open>Post.destroy({ where: { id } })\<close> answers with the number of posts it deleted; the join
  rows of a deleted post go with it (\<open>ON DELETE CASCADE\<close>).
\<close>

definition Post_destroy :: "db \<Rightarrow> nat \<Rightarrow> nat \<times> db" where
  "Post_destroy d k =
     (let deleted = length (filter (\<lambda>p. p_id p = k) (posts d))
      in if deleted = 0 then (0, d)
         else (deleted,
               d\<lparr>posts := filter (\<lambda>p. p_id p \<noteq> k) (posts d),
                  postTags := filter (\<lambda>l. fst l \<noteq> k) (postTags d)\<rparr>))"

definition deletePost :: "db \<Rightarrow> nat \<Rightarrow> unit response \<times> db" where
  "deletePost d k =
     (case Post_destroy d k of
        (deleted, d') \<Rightarrow>
          if deleted \<noteq> 0 then (NoBody 204, d') else (Message 404 ''Post not found'', d'))"

section \<open>The tag controller and the post-tag controller\<close>

definition createTag :: "db \<Rightarrow> jv \<Rightarrow> tag response \<times> db" where
  "createTag d n =
     (case n of
        JStr s \<Rightarrow>
          (let g = \<lparr>t_id = tagSeq d, t_name = s\<rparr>
           in (Json 201 g, d\<lparr>tags := tags d @ [g], tagSeq := Suc (tagSeq d)\<rparr>))
      | _ \<Rightarrow> (Failure 400 (ValidationError ''name''), d))"

text \<open>\<open>Tag.update({ name }, { where: { id } })\<close> and \<open>Tag.destroy({ where: { id } })\<close>.\<close>

definition Tag_update :: "db \<Rightarrow> nat \<Rightarrow> jv \<Rightarrow> (orm_error + nat) \<times> db" where
  "Tag_update d k n =
     (if n = JUndefined then (Inr 0, d)
      else if n = JNull then (Inl (ValidationError ''name''), d)
      else
        (Inr (length (filter (\<lambda>g. t_id g = k) (tags d))),
         d\<lparr>tags := map (\<lambda>g. if t_id g = k then g\<lparr>t_name := assign n (t_name g)\<rparr> else g)
                          (tags d)\<rparr>))"

definition updateTag :: "db \<Rightarrow> nat \<Rightarrow> jv \<Rightarrow> tag option response \<times> db" where
  "updateTag d k n =
     (case Tag_update d k n of
        (Inr updated, d1) \<Rightarrow>
          if updated \<noteq> 0 then (Json 200 (Tag_findByPk d1 k), d1)
          else (Message 404 ''Tag not found'', d1)
      | (Inl err, d1) \<Rightarrow> (Failure 400 err, d1))"

text \<open>The join rows of a deleted tag go with it (\<open>ON DELETE CASCADE\<close>).\<close>

definition Tag_destroy :: "db \<Rightarrow> nat \<Rightarrow> nat \<times> db" where
  "Tag_destroy d k =
     (let deleted = length (filter (\<lambda>g. t_id g = k) (tags d))
      in if deleted = 0 then (0, d)
         else (deleted,
               d\<lparr>tags := filter (\<lambda>g. t_id g \<noteq> k) (tags d),
                  postTags := filter (\<lambda>l. snd l \<noteq> k) (postTags d)\<rparr>))"

definition deleteTag :: "db \<Rightarrow> nat \<Rightarrow> unit response \<times> db" where
  "deleteTag d k =
     (case Tag_destroy d k of
        (deleted, d') \<Rightarrow>
          if deleted \<noteq> 0 then (NoBody 204, d') else (Message 404 ''Tag not found'', d'))"

text \<open>
  \<open>findByPk\<close> with an id that a request supplies. The key columns are of type \<open>INTEGER\<close>:
  for a value beyond its range the storage engine refuses the statement and \<open>findByPk\<close>
  raises. (\<open>Post_findByPk\<close> and \<open>Tag_findByPk\<close> are the lookups among the stored rows;
  the handlers of the post controller are read at ids the column can hold.)
\<close>

definition INTEGER_max :: nat where
  "INTEGER_max = 2147483647"

definition findByPk_param :: "(nat \<Rightarrow> 'a option) \<Rightarrow> nat \<Rightarrow> orm_error + 'a option" where
  "findByPk_param lookup k =
     (if INTEGER_max < k then Inl (DatabaseError ''value out of range for type integer'')
      else Inr (lookup k))"

text \<open>
  Both handlers look the post and the tag up first (\<open>findByPk(undefined)\<close> finds nothing),
  and answer with one and the same 404 when either is missing. An error raised by a
  lookup ends in the \<open>catch\<close> block, which answers 500. \<open>post.addTag(tag)\<close> and
  \<open>post.removeTag(tag)\<close> run as single statements on the committed store; \<open>removeTag\<close>
  deletes the join rows of the pair, however many there are.
\<close>

definition find_post_and_tag ::
  "db \<Rightarrow> nat \<Rightarrow> nat option \<Rightarrow> orm_error + post option \<times> tag option" where
  "find_post_and_tag d pid tagId =
     (case findByPk_param (Post_findByPk d) pid of
        Inl err \<Rightarrow> Inl err
      | Inr post \<Rightarrow>
          (case (case tagId of None \<Rightarrow> Inr None
                 | Some k \<Rightarrow> findByPk_param (Tag_findByPk d) k) of
             Inl err \<Rightarrow> Inl err
           | Inr tag \<Rightarrow> Inr (post, tag)))"

definition addTagToPost :: "db \<Rightarrow> nat \<Rightarrow> nat option \<Rightarrow> unit response \<times> db" where
  "addTagToPost d pid tagId =
     (case find_post_and_tag d pid tagId of
        Inl err \<Rightarrow> (Failure 500 err, d)
      | Inr (Some p, Some g) \<Rightarrow>
          (case unassociated (postTags d) (p_id p) [t_id g] of
             Inl err \<Rightarrow> (Failure 500 err, d)
           | Inr new \<Rightarrow>
               (Message 200 ''Tag added to post successfully'',
                d\<lparr>postTags := postTags d @ new\<rparr>))
      | Inr _ \<Rightarrow> (Message 404 ''Post or Tag not found'', d))"

definition removeTagFromPost :: "db \<Rightarrow> nat \<Rightarrow> nat option \<Rightarrow> unit response \<times> db" where
  "removeTagFromPost d pid tagId =
     (case find_post_and_tag d pid tagId of
        Inl err \<Rightarrow> (Failure 500 err, d)
      | Inr (Some p, Some g) \<Rightarrow>
          (Message 200 ''Tag removed from post successfully'',
           d\<lparr>postTags := filter (\<lambda>l. l \<noteq> (p_id p, t_id g)) (postTags d)\<rparr>)
      | Inr _ \<Rightarrow> (Message 404 ''Post or Tag not found'', d))"

section \<open>Reachable stores\<close>

text \<open>
  The stores the handlers of the user, post, tag and post-tag controllers can produce,
  starting from the empty store that \<open>sequelize.sync({ force: true })\<close> leaves behind.
  (The handlers of the profile controller write the \<open>Profile\<close> table only.)
\<close>

inductive reachable :: "db \<Rightarrow> bool" where
  r_init: "reachable empty_db"
| r_createUser: "reachable d \<Longrightarrow> reachable (snd (createUser e d ub))"
| r_updateUser: "reachable d \<Longrightarrow> reachable (snd (updateUser e d k ub))"
| r_deleteUser: "reachable d \<Longrightarrow> reachable (snd (deleteUser d k))"
| r_createPost: "reachable d \<Longrightarrow> reachable (snd (createPost e d pb))"
| r_updatePost: "reachable d \<Longrightarrow> reachable (snd (updatePost d k upb))"
| r_createTag: "reachable d \<Longrightarrow> reachable (snd (createTag d n))"
| r_addTagToPost: "reachable d \<Longrightarrow> reachable (snd (addTagToPost d k tagId))"
| r_removeTagFromPost: "reachable d \<Longrightarrow> reachable (snd (removeTagFromPost d k tagId))"
| r_deletePost: "reachable d \<Longrightarrow> reachable (snd (deletePost d k))"
| r_updateTag: "reachable d \<Longrightarrow> reachable (snd (updateTag d k n))"
| r_deleteTag: "reachable d \<Longrightarrow> reachable (snd (deleteTag d k))"

text \<open>
  The keys of the \<open>Users\<close> table: ids are pairwise different and were all drawn from the
  sequence, and emails are pairwise different.
\<close>

definition users_ok :: "db \<Rightarrow> bool" where
  "users_ok d = (distinct (map u_id (users d)) \<and> list_all (\<lambda>u. u_id u < userSeq d) (users d)
     \<and> distinct (map u_email (users d)))"

text \<open>
  The keys of the other tables: the ids of posts and tags, and the post ids of the join
  rows, were all drawn from the sequences, and tag ids are pairwise different.
\<close>

definition store_ok :: "db \<Rightarrow> bool" where
  "store_ok d =
     (list_all (\<lambda>p. p_id p < postSeq d) (posts d) \<and>
      list_all (\<lambda>l. fst l < postSeq d) (postTags d) \<and>
      list_all (\<lambda>g. t_id g < tagSeq d) (tags d) \<and>
      distinct (map t_id (tags d)))"

section \<open>Sample stores and requests\<close>

definition env0 :: env where
  "env0 = \<lparr>isEmail = (\<lambda>s. CHR ''@'' \<in> set s), clock = 100, hookLookupFails = False\<rparr>"

definition env_hook_down :: env where
  "env_hook_down =
     \<lparr>isEmail = (\<lambda>s. CHR ''@'' \<in> set s), clock = 100, hookLookupFails = True\<rparr>"

definition alice :: user where
  "alice = \<lparr>u_id = 1, u_firstName = ''Alice'', u_lastName = ''Johnson'',
             u_email = ''alice@example.com''\<rparr>"

definition alice_body :: user_body where
  "alice_body = \<lparr>ub_firstName = JStr ''Alice'', ub_lastName = JStr ''Johnson'',
                  ub_email = JStr ''alice@example.com''\<rparr>"

text \<open>The store after Alice has registered.\<close>

definition store_alice :: db where
  "store_alice = \<lparr>users = [alice], posts = [], tags = [], postTags = [],
                    userSeq = 2, postSeq = 1, tagSeq = 1,
                    console = [UserRegistered ''Alice'' ''Johnson'' ''alice@example.com'']\<rparr>"

definition hello_body :: post_body where
  "hello_body = \<lparr>pb_title = JStr ''Hello'', pb_content = JStr ''World'', pb_userId = Some 1,
                  pb_tags = None, pb_status = JUndefined\<rparr>"

definition hello :: post where
  "hello = \<lparr>p_id = 1, p_title = ''Hello'', p_content = ''World'', p_userId = 1,
             p_status = Some Draft, p_createdAt = 100\<rparr>"

definition tag_a :: tag where
  "tag_a = \<lparr>t_id = 1, t_name = ''a''\<rparr>"

definition tag_b :: tag where
  "tag_b = \<lparr>t_id = 2, t_name = ''b''\<rparr>"

definition tag_c :: tag where
  "tag_c = \<lparr>t_id = 3, t_name = ''c''\<rparr>"

text \<open>The store after Alice has posted \<open>hello_body\<close>, and the same with a tag nobody uses.\<close>

definition store_hello :: db where
  "store_hello = store_alice\<lparr>posts := [hello], postSeq := 2,
       console := console store_alice @ [PostCreated ''Alice'' ''Johnson'' ''Hello'' (Some Draft)]\<rparr>"


text \<open>The store after Alice has posted \<open>hello_body\<close> with the tags \<open>a\<close> and \<open>b\<close>.\<close>

definition store_hello_ab :: db where
  "store_hello_ab = store_hello\<lparr>tags := [tag_a, tag_b], tagSeq := 3,
                                 postTags := [(1, 1), (1, 2)]\<rparr>"

text \<open>One post of each status.\<close>

definition post_active :: post where
  "post_active = \<lparr>p_id = 1, p_title = ''First'', p_content = ''one'', p_userId = 1,
                   p_status = Some Active, p_createdAt = 10\<rparr>"

definition post_draft :: post where
  "post_draft = \<lparr>p_id = 2, p_title = ''Second'', p_content = ''two'', p_userId = 1,
                  p_status = Some Draft, p_createdAt = 20\<rparr>"

definition post_archived :: post where
  "post_archived = \<lparr>p_id = 3, p_title = ''Third'', p_content = ''three'', p_userId = 1,
                     p_status = Some Archived, p_createdAt = 30\<rparr>"

definition store_mixed :: db where
  "store_mixed = store_alice\<lparr>posts := [post_active, post_draft, post_archived], postSeq := 4\<rparr>"

definition no_query :: list_query where
  "no_query = \<lparr>q_page = None, q_limit = None, q_status = None\<rparr>"

definition view :: "post \<Rightarrow> tag list \<Rightarrow> post_view" where
  "view p gs = \<lparr>pv_post = p, pv_user = Some alice, pv_tags = gs\<rparr>"

text \<open>
  Five active posts, created at the instants 10 to 50; the first carries three tags, as
  the first post of the repository's seed script does.
\<close>

definition active_post :: "nat \<Rightarrow> post" where
  "active_post i = \<lparr>p_id = i, p_title = ''Title'', p_content = ''Body'', p_userId = 1,
                     p_status = Some Active, p_createdAt = 10 * i\<rparr>"

definition store_five :: db where
  "store_five = store_alice\<lparr>posts := map active_post [1, 2, 3, 4, 5], postSeq := 6,
                             tags := [tag_a, tag_b, tag_c], tagSeq := 4,
                             postTags := [(1, 1), (1, 2), (1, 3)]\<rparr>"

definition page_two :: list_query where
  "page_two = \<lparr>q_page = Some 2, q_limit = Some 2, q_status = Some ''active''\<rparr>"

section \<open>Frame and invariant lemmas\<close>

subsection \<open>The Users table\<close>

lemma users_ok_cong: "users d' = users d \<Longrightarrow> userSeq d' = userSeq d \<Longrightarrow> users_ok d' = users_ok d"
  by (simp add: users_ok_def)

lemma User_create_ok: "users_ok d \<Longrightarrow> users_ok (snd (User_create e d a b c))"
  by (auto simp: users_ok_def User_create_def Let_def list_all_iff split: jv.splits)

lemma createUser_ok: "users_ok d \<Longrightarrow> users_ok (snd (createUser e d ub))"
  using User_create_ok[of d e "ub_firstName ub" "ub_lastName ub" "ub_email ub"]
  by (auto simp: createUser_def split: prod.splits sum.splits)

lemma map_field_same: "(\<forall>u\<in>set us. g (f u) = g u) \<Longrightarrow> map g (map f us) = map g us"
  by (induction us) auto

lemma update_emails_distinct:
  assumes "distinct (map u_id us)" and "distinct (map u_email us)"
    and "filter (\<lambda>u. u_id u \<noteq> k \<and> u_email u = m) us = []"
    and "\<forall>u. u_id u = k \<longrightarrow> u_email (f u) = m" and "\<forall>u. u_id u \<noteq> k \<longrightarrow> f u = u"
  shows "distinct (map u_email (map f us))"
  using assms
proof (induction us)
  case Nil
  then show ?case by simp
next
  case (Cons u us)
  then show ?case
    by (auto simp: filter_empty_conv image_iff split: if_splits) metis+
qed

lemma User_update_users:
  assumes ok: "users_ok d" and u: "User_update e d k a b c = (r, d')"
  shows "map u_id (users d') = map u_id (users d) \<and> userSeq d' = userSeq d \<and> distinct (map u_email (users d'))"
proof (cases "d' = d")
  case True
  with ok show ?thesis by (simp add: users_ok_def)
next
  case False
  with u have d': "d' = d\<lparr>users := map (user_assign k a b c) (users d)\<rparr>"
    and c: "c \<noteq> JNull"
    and uniq: "case c of JStr m \<Rightarrow> filter (\<lambda>u. u_id u = k) (users d) = [] \<or>
                 filter (\<lambda>u. u_id u \<noteq> k \<and> u_email u = m) (users d) = [] | _ \<Rightarrow> True"
    by (auto simp: User_update_def split: if_splits jv.splits)
  have ids: "map u_id (users d') = map u_id (users d)"
    unfolding d' by (simp add: map_field_same user_assign_def del: map_map)
  have "distinct (map u_email (map (user_assign k a b c) (users d)))"
  proof (cases c)
    case JUndefined
    have "map u_email (map (user_assign k a b c) (users d)) = map u_email (users d)"
      by (rule map_field_same) (simp add: user_assign_def JUndefined)
    with ok show ?thesis by (simp add: users_ok_def del: map_map)
  next
    case JNull
    with c show ?thesis by simp
  next
    case (JStr m)
    show ?thesis
    proof (cases "filter (\<lambda>u. u_id u = k) (users d) = []")
      case True
      then have "map (user_assign k a b c) (users d) = users d"
        by (auto simp: filter_empty_conv user_assign_def intro: map_idI)
      with ok show ?thesis by (simp add: users_ok_def)
    next
      case False
      with uniq JStr have "filter (\<lambda>u. u_id u \<noteq> k \<and> u_email u = m) (users d) = []" by simp
      with ok show ?thesis
        by (intro update_emails_distinct[where k = k and m = m])
           (simp_all add: users_ok_def user_assign_def JStr)
    qed
  qed
  with ids show ?thesis by (simp add: d' del: map_map)
qed

lemma User_update_ok: "users_ok d \<Longrightarrow> users_ok (snd (User_update e d k a b c))"
proof -
  assume ok: "users_ok d"
  obtain r d' where u: "User_update e d k a b c = (r, d')" by (cases "User_update e d k a b c")
  from User_update_users[OF ok u] ok have "users_ok d'"
    by (simp add: users_ok_def list_all_iff) (metis (no_types, lifting) image_set imageE imageI)
  with u show ?thesis by simp
qed

lemma updateUser_ok: "users_ok d \<Longrightarrow> users_ok (snd (updateUser e d k ub))"
  using User_update_ok[of d e k "ub_firstName ub" "ub_lastName ub" "ub_email ub"]
  by (auto simp: updateUser_def split: prod.splits sum.splits)

lemma deleteUser_ok: "users_ok d \<Longrightarrow> users_ok (snd (deleteUser d k))"
  by (auto simp: deleteUser_def User_destroy_def users_ok_def list_all_iff distinct_map_filter)



lemma Tag_findOrCreate_frame:
  "Tag_findOrCreate d n = (r, d') \<Longrightarrow>
   users d' = users d \<and> userSeq d' = userSeq d \<and> posts d' = posts d \<and>
   postTags d' = postTags d \<and> postSeq d' = postSeq d \<and> console d' = console d"
  by (auto simp: Tag_findOrCreate_def Let_def split: jv.splits option.splits)

lemma findOrCreate_each_frame:
  "findOrCreate_each d ns = (rs, d') \<Longrightarrow>
   users d' = users d \<and> userSeq d' = userSeq d \<and> posts d' = posts d \<and>
   postTags d' = postTags d \<and> postSeq d' = postSeq d \<and> console d' = console d"
proof (induction ns arbitrary: d rs d')
  case Nil
  then show ?case by simp
next
  case (Cons n ns)
  obtain r d1 where a: "Tag_findOrCreate d n = (r, d1)" by (cases "Tag_findOrCreate d n")
  obtain rs' d2 where b: "findOrCreate_each d1 ns = (rs', d2)" by (cases "findOrCreate_each d1 ns")
  from Cons.prems a b have "d' = d2" by simp
  with Cons.IH[OF b] Tag_findOrCreate_frame[OF a] show ?case by simp
qed

lemma Post_create_frame:
  "Post_create e d t ti co uid st = (r, d', t') \<Longrightarrow>
   users d' = users d \<and> userSeq d' = userSeq d \<and> posts d' = posts d \<and>
   postTags d' = postTags d \<and> tags d' = tags d \<and> tagSeq d' = tagSeq d"
  by (auto simp: Post_create_def Post_afterCreate_def Let_def split: jv.splits option.splits if_splits)

lemma attach_tags_frame:
  "attach_tags d t p ns = (r, d', t') \<Longrightarrow>
   users d' = users d \<and> userSeq d' = userSeq d \<and> posts d' = posts d \<and>
   postTags d' = postTags d \<and> postSeq d' = postSeq d \<and> console d' = console d"
  by (auto simp: attach_tags_def split: prod.splits sum.splits dest: findOrCreate_each_frame)

lemma createPost_users:
  "users (snd (createPost e d b)) = users d \<and> userSeq (snd (createPost e d b)) = userSeq d"
  by (auto simp: createPost_def Let_def rollback_def commit_def
           split: option.splits prod.splits sum.splits list.splits
           dest!: Post_create_frame attach_tags_frame)

lemma updatePost_users:
  "users (snd (updatePost d k b)) = users d \<and> userSeq (snd (updatePost d k b)) = userSeq d"
  by (auto simp: updatePost_def Post_update_def split: prod.splits sum.splits if_splits)

lemma createTag_users:
  "users (snd (createTag d n)) = users d \<and> userSeq (snd (createTag d n)) = userSeq d"
  by (auto simp: createTag_def Let_def split: jv.splits)

lemma find_post_and_tag_found:
  "find_post_and_tag d pid tagId = Inr (Some p, Some g) \<Longrightarrow>
   Post_findByPk d pid = Some p \<and> (\<exists>k. tagId = Some k \<and> Tag_findByPk d k = Some g)"
  by (auto simp: find_post_and_tag_def findByPk_param_def
      split: if_splits sum.splits option.splits)

lemma addTagToPost_users:
  "users (snd (addTagToPost d k g)) = users d \<and> userSeq (snd (addTagToPost d k g)) = userSeq d"
  by (auto simp: addTagToPost_def split: option.splits sum.splits prod.splits)

lemma removeTagFromPost_users:
  "users (snd (removeTagFromPost d k g)) = users d \<and> userSeq (snd (removeTagFromPost d k g)) = userSeq d"
  by (auto simp: removeTagFromPost_def split: option.splits sum.splits prod.splits)

lemma deletePost_users:
  "users (snd (deletePost d k)) = users d \<and> userSeq (snd (deletePost d k)) = userSeq d"
  by (simp add: deletePost_def Post_destroy_def Let_def)

lemma updateTag_users:
  "users (snd (updateTag d k n)) = users d \<and> userSeq (snd (updateTag d k n)) = userSeq d"
  by (simp add: updateTag_def Tag_update_def)

lemma deleteTag_users:
  "users (snd (deleteTag d k)) = users d \<and> userSeq (snd (deleteTag d k)) = userSeq d"
  by (simp add: deleteTag_def Tag_destroy_def Let_def)

lemma reachable_users_ok: "reachable d \<Longrightarrow> users_ok d"
proof (induction rule: reachable.induct)
  case r_init
  show ?case by (simp add: users_ok_def empty_db_def)
next
  case (r_createUser d e ub)
  then show ?case by (simp add: createUser_ok)
next
  case (r_updateUser d e k ub)
  then show ?case by (simp add: updateUser_ok)
next
  case (r_deleteUser d k)
  then show ?case by (simp add: deleteUser_ok)
next
  case (r_createPost d e pb)
  then show ?case using users_ok_cong createPost_users by blast
next
  case (r_updatePost d k upb)
  then show ?case using users_ok_cong updatePost_users by blast
next
  case (r_createTag d n)
  then show ?case using users_ok_cong createTag_users by blast
next
  case (r_addTagToPost d k tagId)
  then show ?case using users_ok_cong addTagToPost_users by blast
next
  case (r_removeTagFromPost d k tagId)
  then show ?case using users_ok_cong removeTagFromPost_users by blast
next
  case (r_deletePost d k)
  then show ?case using users_ok_cong deletePost_users by blast
next
  case (r_updateTag d k n)
  then show ?case using users_ok_cong updateTag_users by blast
next
  case (r_deleteTag d k)
  then show ?case using users_ok_cong deleteTag_users by blast
qed

lemma createUser_duplicate:
  assumes "u \<in> set (users d)" and "ub_email b = JStr (u_email u)"
  shows "\<exists>err d'. createUser e d b = (Failure 400 err, d') \<and> is_validation_error err \<and> users d' = users d"
  using assms by (auto simp: createUser_def User_create_def split: jv.splits)

lemma store_alice_created: "snd (createUser env0 empty_db alice_body) = store_alice"
  by (simp add: createUser_def User_create_def env0_def empty_db_def alice_body_def
      store_alice_def alice_def Let_def)

lemma reachable_store_alice: "reachable store_alice"
  using r_createUser[OF r_init, of env0 alice_body] by (simp add: store_alice_created)

subsection \<open>Evaluation of the handlers\<close>

lemmas createPost_defs = createPost_def Post_create_def Post_afterCreate_def attach_tags_def
  Tag_findOrCreate_def Post_addTags_def unassociated_def User_findByPk_def or_default_def
  transaction_def commit_def rollback_def Let_def

text \<open>\<open>Math.ceil\<close> of a quotient of integers, by integer division.\<close>

lemma ceil_div_code:
  "ceil_div c l = (if l = 0 then None else Some (- ((- int c) div l)))"
proof -
  have "\<lceil>real c / real_of_int l\<rceil> = - ((- int c) div l)"
    using ceiling_divide_eq_div[of "int c" l] by simp
  then show ?thesis by (simp add: ceil_div_def)
qed

lemmas getAllPosts_defs = getAllPosts_def listContent_def Post_scope_def scopes_def
  inherited_truthy_def inherited_throwing_def Post_findAndCountAll_def
  in_scope_def newest_first_def join_rows_def Post_tags_def include_User_Tag_def
  User_findByPk_def ceil_div_code Let_def

subsection \<open>Lookups\<close>

lemma find_Some_pred: "find P xs = Some x \<Longrightarrow> P x \<and> x \<in> set xs"
  by (induction xs) (auto split: if_splits)

lemma find_fresh_append:
  "\<forall>x\<in>set xs. \<not> P x \<Longrightarrow> P y \<Longrightarrow> find P (xs @ [y]) = Some y"
  by (induction xs) auto

lemma filter_none: "\<forall>x\<in>set xs. \<not> P x \<Longrightarrow> filter P xs = []"
  by (induction xs) auto

subsection \<open>Tags and the store invariant\<close>

lemma Tag_findOrCreate_str:
  assumes "list_all (\<lambda>g. t_id g < tagSeq d) (tags d)" and "distinct (map t_id (tags d))"
  shows "\<exists>g c d'. Tag_findOrCreate d (JStr s) = (Inr (g, c), d') \<and> g \<in> set (tags d')
           \<and> t_name g = s \<and> set (tags d) \<subseteq> set (tags d')
           \<and> list_all (\<lambda>g. t_id g < tagSeq d') (tags d') \<and> distinct (map t_id (tags d'))
           \<and> posts d' = posts d \<and> postTags d' = postTags d \<and> postSeq d' = postSeq d
           \<and> users d' = users d"
proof (cases "find (\<lambda>g. t_name g = s) (tags d)")
  case None
  with assms show ?thesis
    by (auto simp: Tag_findOrCreate_def Let_def list_all_iff)
next
  case (Some g)
  with assms find_Some_pred[OF Some] show ?thesis
    by (auto simp: Tag_findOrCreate_def)
qed

lemma filter_by_id:
  "distinct (map t_id gs) \<Longrightarrow> g \<in> set gs \<Longrightarrow> filter (\<lambda>x. t_id x = t_id g) gs = [g]"
proof (induction gs)
  case Nil
  then show ?case by simp
next
  case (Cons x gs)
  then show ?case by (auto simp: filter_empty_conv image_iff)
qed

lemma Tag_findOrCreate_tags_ok:
  assumes "list_all (\<lambda>g. t_id g < tagSeq d) (tags d)" and "distinct (map t_id (tags d))"
    and "Tag_findOrCreate d n = (r, d')"
  shows "list_all (\<lambda>g. t_id g < tagSeq d') (tags d') \<and> distinct (map t_id (tags d'))"
  using assms
  by (fastforce simp: Tag_findOrCreate_def Let_def list_all_iff less_Suc_eq
      split: jv.splits option.splits)

lemma findOrCreate_each_tags_ok:
  "list_all (\<lambda>g. t_id g < tagSeq d) (tags d) \<Longrightarrow> distinct (map t_id (tags d)) \<Longrightarrow>
   findOrCreate_each d ns = (rs, d') \<Longrightarrow>
   list_all (\<lambda>g. t_id g < tagSeq d') (tags d') \<and> distinct (map t_id (tags d'))"
proof (induction ns arbitrary: d rs d')
  case Nil
  then show ?case by simp
next
  case (Cons n ns)
  obtain r d1 where a: "Tag_findOrCreate d n = (r, d1)" by (cases "Tag_findOrCreate d n")
  obtain rs' d2 where b: "findOrCreate_each d1 ns = (rs', d2)" by (cases "findOrCreate_each d1 ns")
  from Cons.prems a b have "d' = d2" by simp
  with Tag_findOrCreate_tags_ok[OF Cons.prems(1,2) a] Cons.IH[OF _ _ b] show ?case by simp
qed

lemma Post_create_posts:
  "Post_create e d t ti co uid st = (r, d', t') \<Longrightarrow>
   postSeq d \<le> postSeq d' \<and>
   (case r of Inl _ \<Rightarrow> True
    | Inr p \<Rightarrow> p_id p = postSeq d \<and> postSeq d' = Suc (postSeq d) \<and> t' = t\<lparr>tx_posts := tx_posts t @ [p]\<rparr>)"
  by (auto simp: Post_create_def Post_afterCreate_def Let_def
      split: jv.splits option.splits if_splits)

lemma attach_tags_links:
  "attach_tags d t p ns = (Inr x, d', t') \<Longrightarrow>
   tx_posts t' = tx_posts t \<and> (\<exists>rows. tx_postTags t' = tx_postTags t @ rows \<and> list_all (\<lambda>l. fst l = p_id p) rows)"
  by (auto simp: attach_tags_def Post_addTags_def unassociated_def Let_def list_all_iff
      split: prod.splits sum.splits if_splits)

lemma attach_tags_tags_ok:
  "list_all (\<lambda>g. t_id g < tagSeq d) (tags d) \<Longrightarrow> distinct (map t_id (tags d)) \<Longrightarrow>
   attach_tags d t p ns = (r, d', t') \<Longrightarrow>
   list_all (\<lambda>g. t_id g < tagSeq d') (tags d') \<and> distinct (map t_id (tags d'))"
  by (auto simp: attach_tags_def split: prod.splits sum.splits dest: findOrCreate_each_tags_ok)

lemma createPost_store_ok:
  assumes ok: "store_ok d"
  shows "store_ok (snd (createPost e d b))"
proof (cases "case pb_userId b of None \<Rightarrow> None | Some k \<Rightarrow> User_findByPk d k")
  case None
  with ok show ?thesis by (simp add: createPost_def Let_def rollback_def)
next
  case (Some u)
  obtain r d1 t1 where pc: "Post_create e d transaction (pb_title b) (pb_content b) (u_id u)
           (or_default (pb_status b) ''draft'') = (r, d1, t1)"
    by (metis prod_cases3)
  note fr1 = Post_create_frame[OF pc] and ps1 = Post_create_posts[OF pc]
  from ok fr1 ps1 have ok1: "store_ok d1"
    by (auto simp: store_ok_def list_all_iff)
  show ?thesis
  proof (cases r)
    case (Inl err)
    with Some pc ok1 show ?thesis by (simp add: createPost_def Let_def rollback_def)
  next
    case (Inr p)
    with ps1 have pid: "p_id p = postSeq d" "postSeq d1 = Suc (postSeq d)"
      and t1: "t1 = \<lparr>tx_posts = [p], tx_postTags = []\<rparr>"
      by (simp_all add: transaction_def)
    obtain r2 d2 t2 where at: "(case pb_tags b of
                        Some (n # ns) \<Rightarrow> attach_tags d1 t1 p (n # ns)
                      | _ \<Rightarrow> (Inr (), d1, t1)) = (r2, d2, t2)"
      by (metis prod_cases3)
    have fr2: "posts d2 = posts d1 \<and> postTags d2 = postTags d1 \<and> postSeq d2 = postSeq d1"
      and tg2: "list_all (\<lambda>g. t_id g < tagSeq d2) (tags d2) \<and> distinct (map t_id (tags d2))"
      using at ok1
      by (auto simp: store_ok_def split: option.splits list.splits
          dest: attach_tags_frame attach_tags_tags_ok)
    from fr2 tg2 ok1 have ok2: "store_ok d2" by (simp add: store_ok_def)
    show ?thesis
    proof (cases r2)
      case (Inl err)
      with Some pc Inr at ok2 show ?thesis by (simp add: createPost_def Let_def rollback_def)
    next
      case r2: (Inr x)
      have "tx_posts t2 = [p] \<and> (\<exists>rows. tx_postTags t2 = rows \<and> list_all (\<lambda>l. fst l = p_id p) rows)"
        using at t1 r2
        by (auto split: option.splits list.splits dest!: attach_tags_links)
      with ok2 fr2 pid have "store_ok (commit d2 t2)"
        by (auto simp: store_ok_def commit_def list_all_iff)
      with Some pc Inr at r2 show ?thesis by (simp add: createPost_def Let_def)
    qed
  qed
qed

lemma store_ok_cong:
  "posts d' = posts d \<Longrightarrow> postTags d' = postTags d \<Longrightarrow> tags d' = tags d \<Longrightarrow>
   postSeq d' = postSeq d \<Longrightarrow> tagSeq d' = tagSeq d \<Longrightarrow> store_ok d' = store_ok d"
  by (simp add: store_ok_def)

lemma createUser_store_ok: "store_ok d \<Longrightarrow> store_ok (snd (createUser e d b))"
  by (rule iffD2[OF store_ok_cong])
     (auto simp: createUser_def User_create_def Let_def split: jv.splits)

lemma updateUser_store_ok: "store_ok d \<Longrightarrow> store_ok (snd (updateUser e d k b))"
  by (rule iffD2[OF store_ok_cong])
     (auto simp: updateUser_def User_update_def split: jv.splits if_splits)

lemma deleteUser_store_ok: "store_ok d \<Longrightarrow> store_ok (snd (deleteUser d k))"
  by (auto simp: deleteUser_def User_destroy_def Let_def store_ok_def list_all_iff)

lemma updatePost_store_ok: "store_ok d \<Longrightarrow> store_ok (snd (updatePost d k b))"
  by (auto simp: updatePost_def Post_update_def store_ok_def list_all_iff post_assign_def
      split: if_splits)

lemma createTag_store_ok: "store_ok d \<Longrightarrow> store_ok (snd (createTag d n))"
  by (auto simp: createTag_def store_ok_def list_all_iff Let_def split: jv.splits)

lemma addTagToPost_store_ok: "store_ok d \<Longrightarrow> store_ok (snd (addTagToPost d k g))"
  by (auto simp: addTagToPost_def store_ok_def list_all_iff unassociated_def Post_findByPk_def
      split: option.splits sum.splits prod.splits if_splits
      dest!: find_post_and_tag_found find_Some_pred)

lemma removeTagFromPost_store_ok: "store_ok d \<Longrightarrow> store_ok (snd (removeTagFromPost d k g))"
  by (auto simp: removeTagFromPost_def store_ok_def list_all_iff
      split: option.splits sum.splits prod.splits)

lemma deletePost_store_ok: "store_ok d \<Longrightarrow> store_ok (snd (deletePost d k))"
  by (auto simp: deletePost_def Post_destroy_def Let_def store_ok_def list_all_iff)

lemma updateTag_store_ok:
  assumes "store_ok d"
  shows "store_ok (snd (updateTag d k n))"
proof -
  have ids: "map t_id (map (\<lambda>g. if t_id g = k then g\<lparr>t_name := assign n (t_name g)\<rparr> else g) gs) =
      map t_id gs" for gs
    by (induction gs) auto
  have "distinct (map t_id (map (\<lambda>g. if t_id g = k then g\<lparr>t_name := assign n (t_name g)\<rparr> else g)
      (tags d)))"
    using assms unfolding ids by (simp add: store_ok_def)
  with assms show ?thesis
    by (auto simp: updateTag_def Tag_update_def store_ok_def list_all_iff simp del: map_map)
qed

lemma deleteTag_store_ok: "store_ok d \<Longrightarrow> store_ok (snd (deleteTag d k))"
  by (auto simp: deleteTag_def Tag_destroy_def Let_def store_ok_def list_all_iff
      distinct_map_filter)

lemma reachable_store_ok: "reachable d \<Longrightarrow> store_ok d"
proof (induction rule: reachable.induct)
  case r_init
  show ?case by (simp add: store_ok_def empty_db_def)
qed (simp_all add: createUser_store_ok updateUser_store_ok deleteUser_store_ok createPost_store_ok
       updatePost_store_ok createTag_store_ok addTagToPost_store_ok removeTagFromPost_store_ok
       deletePost_store_ok updateTag_store_ok deleteTag_store_ok)


subsection \<open>Reading back the tags of a new post\<close>

text \<open>
  In a store whose keys are in order, the post that \<open>createPost\<close> returns is the one
  \<open>getPostById\<close> finds under its id, carrying one tag for each of the two names.
\<close>

lemma createPost_tags_read_back:
  assumes ok: "store_ok d"
    and tg: "pb_tags b = Some [JStr ''a'', JStr ''b'']"
    and cr: "createPost e d b = (Json 201 p, d')"
  shows "\<exists>v. getPostById d' (p_id p) = Json 200 v \<and> pv_post v = p
             \<and> set (map t_name (pv_tags v)) = {''a'', ''b''}"
proof -
  from cr obtain k u where "pb_userId b = Some k" "User_findByPk d k = Some u"
    by (auto simp: createPost_def Let_def split: option.splits)
  with cr obtain d1 t1 where
    pc: "Post_create e d transaction (pb_title b) (pb_content b) (u_id u)
           (or_default (pb_status b) ''draft'') = (Inr p, d1, t1)"
    by (auto simp: createPost_def Let_def split: option.splits prod.splits sum.splits)
  from pc have pid: "p_id p = postSeq d" and t1: "t1 = \<lparr>tx_posts = [p], tx_postTags = []\<rparr>"
    by (auto simp: Post_create_def Post_afterCreate_def Let_def transaction_def
        split: jv.splits if_splits option.splits)
  from Post_create_frame[OF pc] have fr1: "posts d1 = posts d" "postTags d1 = postTags d"
    "tags d1 = tags d" "tagSeq d1 = tagSeq d" by simp_all
  from ok fr1 have ok1: "list_all (\<lambda>g. t_id g < tagSeq d1) (tags d1)" "distinct (map t_id (tags d1))"
    by (simp_all add: store_ok_def)
  from Tag_findOrCreate_str[OF ok1, of "''a''"] obtain ga ca d2 where
    fa: "Tag_findOrCreate d1 (JStr ''a'') = (Inr (ga, ca), d2)" and ga: "ga \<in> set (tags d2)"
    "t_name ga = ''a''" and sub2: "set (tags d1) \<subseteq> set (tags d2)"
    and ok2: "list_all (\<lambda>g. t_id g < tagSeq d2) (tags d2)" "distinct (map t_id (tags d2))"
    and fr2: "posts d2 = posts d1" "postTags d2 = postTags d1" by blast
  from Tag_findOrCreate_str[OF ok2, of "''b''"] obtain gb cb d3 where
    fb: "Tag_findOrCreate d2 (JStr ''b'') = (Inr (gb, cb), d3)" and gb: "gb \<in> set (tags d3)"
    "t_name gb = ''b''" and sub3: "set (tags d2) \<subseteq> set (tags d3)"
    and ok3: "list_all (\<lambda>g. t_id g < tagSeq d3) (tags d3)" "distinct (map t_id (tags d3))"
    and fr3: "posts d3 = posts d2" "postTags d3 = postTags d2" by blast
  from ga sub3 have ga3: "ga \<in> set (tags d3)" by blast
  have ne: "t_id ga \<noteq> t_id gb"
  proof
    assume "t_id ga = t_id gb"
    with ok3(2) ga3 gb(1) have "ga = gb" by (meson distinct_map inj_onD)
    with ga(2) gb(2) show False by simp
  qed
  have nolink: "\<forall>l\<in>set (postTags d3). fst l \<noteq> p_id p"
    using ok fr1 fr2 fr3 pid by (auto simp: store_ok_def list_all_iff)
  have nopost: "\<forall>q\<in>set (posts d3). p_id q \<noteq> p_id p"
    using ok fr1 fr2 fr3 pid by (auto simp: store_ok_def list_all_iff)
  from nolink have un: "unassociated (postTags d3 @ []) (p_id p) [t_id ga, t_id gb] =
      Inr [(p_id p, t_id ga), (p_id p, t_id gb)]"
    using ne by (auto simp: unassociated_def)
  have at: "attach_tags d1 t1 p [JStr ''a'', JStr ''b''] =
      (Inr (), d3, \<lparr>tx_posts = [p], tx_postTags = [(p_id p, t_id ga), (p_id p, t_id gb)]\<rparr>)"
    using un by (simp add: attach_tags_def fa fb Post_addTags_def t1)
  from cr have d': "d' = d3\<lparr>posts := posts d3 @ [p],
      postTags := postTags d3 @ [(p_id p, t_id ga), (p_id p, t_id gb)]\<rparr>"
    using \<open>pb_userId b = Some k\<close> \<open>User_findByPk d k = Some u\<close>
    by (simp add: createPost_def Let_def pc tg at commit_def)
  have fp: "Post_findByPk d' (p_id p) = Some p"
    unfolding Post_findByPk_def d' using nopost by (simp add: find_fresh_append)
  have "filter (\<lambda>l. fst l = p_id p) (postTags d3) = []"
    using nolink by (rule filter_none)
  then have pt: "Post_tags d' (p_id p) = [ga, gb]"
    unfolding Post_tags_def d'
    using filter_by_id[OF ok3(2) ga3] filter_by_id[OF ok3(2) gb(1)] by simp
  show ?thesis
    using fp pt ga(2) gb(2) by (auto simp: getPostById_def include_User_Tag_def)
qed


subsection \<open>What a failed createPost leaves behind\<close>

text \<open>
  Whatever makes \<open>createPost\<close> fail, the rollback discards the post and the join rows:
  the three tables below are as before. The \<open>Tags\<close> table is not in the list.
\<close>

lemma createPost_failure_rolls_back:
  "createPost e d b = (Failure c err, d') \<Longrightarrow>
   posts d' = posts d \<and> postTags d' = postTags d \<and> users d' = users d"
  by (auto simp: createPost_def Let_def rollback_def
           split: option.splits prod.splits sum.splits list.splits
           dest!: Post_create_frame attach_tags_frame)

subsection \<open>Paging\<close>

lemma sorted_newest_first:
  "sorted_wrt (\<lambda>a b. p_createdAt b \<le> p_createdAt a) (newest_first ps)"
proof -
  have "sorted (map p_createdAt (sort_key p_createdAt ps))" by simp
  then have "sorted_wrt (\<lambda>a b. p_createdAt a \<le> p_createdAt b) (sort_key p_createdAt ps)"
    by (simp add: sorted_map)
  then show ?thesis
    unfolding newest_first_def by (simp add: sorted_wrt_rev)
qed

lemma join_rows_positive: "sum_list (map (join_rows d) ps) = 0 \<Longrightarrow> ps = []"
  by (cases ps) (simp_all add: join_rows_def)

text \<open>The handler hands the read the name \<open>active\<close> when the request names no status.\<close>

lemma getAllPosts_default_status:
  "getAllPosts d (q\<lparr>q_status := None\<rparr>) = getAllPosts d (q\<lparr>q_status := Some ''active''\<rparr>)"
  by (simp add: getAllPosts_def)

lemma sum_join_rows:
  "\<forall>p \<in> set ps. length (Post_tags d (p_id p)) \<le> 1 \<Longrightarrow> sum_list (map (join_rows d) ps) = length ps"
  by (induction ps) (auto simp: join_rows_def max_def)

lemma page_two_of_five_untagged:
  assumes five: "length (filter (in_scope (Some Active)) (posts d)) = 5"
    and tags: "\<forall>p \<in> set (posts d). length (Post_tags d (p_id p)) \<le> 1"
  shows "\<exists>pg. getAllPosts d page_two = Json 200 pg \<and> length (pg_posts pg) = 2
           \<and> pg_totalPages pg = Some 3 \<and> pg_currentPage pg = 2
           \<and> sorted_wrt (\<lambda>a b. p_createdAt (pv_post b) \<le> p_createdAt (pv_post a)) (pg_posts pg)
           \<and> list_all (\<lambda>v. p_status (pv_post v) = Some Active) (pg_posts pg)"
proof -
  let ?m = "filter (in_scope (Some Active)) (posts d)"
  have c: "sum_list (map (join_rows d) ?m) = 5"
    using sum_join_rows[of ?m d] tags five by simp
  have len: "length (newest_first ?m) = 5"
    using five by (simp add: newest_first_def)
  have srt: "sorted_wrt (\<lambda>a b. p_createdAt b \<le> p_createdAt a) (take 2 (drop 2 (newest_first ?m)))"
    using sorted_newest_first[of ?m] by (simp add: sorted_wrt_take sorted_wrt_drop)
  have act: "\<forall>p \<in> set (take 2 (drop 2 (newest_first ?m))). p_status p = Some Active"
    by (auto simp: newest_first_def in_scope_def dest!: in_set_takeD in_set_dropD)
  have f: "Post_findAndCountAll d (Some Active) 2 2 =
      Inr \<lparr>count = 5, rows = map (include_User_Tag d) (take 2 (drop 2 (newest_first ?m)))\<rparr>"
    unfolding Post_findAndCountAll_def Let_def c by simp
  have sc: "Post_scope (Some ''active'') = Inr (Some Active)"
    by (simp add: Post_scope_def scopes_def)
  have "getAllPosts d page_two =
      Json 200 \<lparr>pg_posts = map (include_User_Tag d) (take 2 (drop 2 (newest_first ?m))),
                pg_totalPages = Some 3, pg_currentPage = 2\<rparr>"
    by (simp add: getAllPosts_def listContent_def page_two_def sc f ceil_div_code)
  with len srt act show ?thesis
    by (simp add: sorted_wrt_map include_User_Tag_def list_all_iff)
qed


text \<open>A title of one to four characters is refused by \<open>updatePost\<close> and nothing is written.\<close>

lemma updatePost_short_title_rejected:
  "s \<noteq> [] \<Longrightarrow> length s < 5 \<Longrightarrow> upb_title b = JStr s \<Longrightarrow>
   updatePost d k b = (Failure 400 (AppError ''Title must be at least 5 characters long.''), d)"
  by (simp add: updatePost_def title_too_short_def)

section \<open>Claims\<close>

subsection \<open>C1: atomicity of createPost\<close>

text \<open>
  C1. The claim: when \<open>createPost\<close> fails after its transaction was opened, no post, no
  join row and no tag created by that call is left in the store. The code passes its
  transaction to \<open>Post.create\<close> and to \<open>addTags\<close> but not to \<open>Tag.findOrCreate\<close>, so a
  tag created by the call is committed on its own. Here Alice posts with the tags
  \<open>['a', null]\<close> into a store without tags: the \<open>null\<close> name makes the call fail with 400,
  the post is rolled back, and the new tag \<open>a\<close> stays in the store.
\<close>

theorem createPost_failure_keeps_new_tag:
  "createPost env0 store_alice (hello_body\<lparr>pb_tags := Some [JStr ''a'', JNull]\<rparr>) =
     (Failure 400 (ValidationError ''name''),
      store_alice\<lparr>tags := [tag_a], tagSeq := 2, postSeq := 2,
                   console := console store_alice @
                     [PostCreated ''Alice'' ''Johnson'' ''Hello'' (Some Draft)]\<rparr>)"
  by (simp add: createPost_defs env0_def store_alice_def alice_def
      hello_body_def tag_a_def)

subsection \<open>C2: a failing afterCreate hook\<close>

text \<open>
  C2, as the code has it. When the insert of \<open>createPost\<close> has succeeded (the author exists,
  title and content are strings, the status is one of the enum) and the \<open>afterCreate\<close>
  hook then fails, the hook's error is the error of \<open>Post.create\<close>: the handler rolls the
  transaction back and answers 400 with that error. The store is as before, except that
  one post id is used up.
\<close>

theorem hook_failure_propagates:
  assumes "hookLookupFails e"
    and "pb_userId b = Some k" and "User_findByPk d k = Some u"
    and "pb_title b = JStr ti" and "pb_content b = JStr co"
    and "or_default (pb_status b) ''draft'' = JStr s" and "status_of_string s = Some st"
  shows "createPost e d b = (Failure 400 ConnectionError, d\<lparr>postSeq := Suc (postSeq d)\<rparr>)"
  using assms
  by (simp add: createPost_def Post_create_def Post_afterCreate_def transaction_def
      rollback_def Let_def del: status_of_string.simps)

text \<open>The theorem at Alice's post, with the hook's lookup failing.\<close>

theorem hook_failure_propagates_witness:
  "hookLookupFails env_hook_down \<and> pb_userId hello_body = Some 1
   \<and> User_findByPk store_alice 1 = Some alice
   \<and> pb_title hello_body = JStr ''Hello'' \<and> pb_content hello_body = JStr ''World''
   \<and> or_default (pb_status hello_body) ''draft'' = JStr ''draft''
   \<and> status_of_string ''draft'' = Some Draft
   \<and> createPost env_hook_down store_alice hello_body =
       (Failure 400 ConnectionError, store_alice\<lparr>postSeq := 2\<rparr>)"
proof -
  have h: "hookLookupFails env_hook_down" "pb_userId hello_body = Some 1"
    "User_findByPk store_alice 1 = Some alice"
    "pb_title hello_body = JStr ''Hello''" "pb_content hello_body = JStr ''World''"
    "or_default (pb_status hello_body) ''draft'' = JStr ''draft''"
    "status_of_string ''draft'' = Some Draft"
    by (simp_all add: env_hook_down_def hello_body_def store_alice_def alice_def User_findByPk_def
        or_default_def)
  from hook_failure_propagates[OF h] h show ?thesis by (simp add: store_alice_def)
qed

text \<open>
  The claim as stated (the hook's failure neither reaches the caller nor undoes the
  insert) fails: with the hook's lookup failing, Alice's post with one tag is answered
  with 400 and the hook's error, and no post is stored.
\<close>

theorem hook_failure_fails_createPost:
  "fst (createPost env_hook_down store_alice (hello_body\<lparr>pb_tags := Some [JStr ''a'']\<rparr>))
     = Failure 400 ConnectionError
   \<and> posts (snd (createPost env_hook_down store_alice
                    (hello_body\<lparr>pb_tags := Some [JStr ''a'']\<rparr>))) = []"
  by (simp add: createPost_defs env_hook_down_def store_alice_def alice_def
      hello_body_def)

subsection \<open>C3: a read without a scope\<close>

text \<open>
  C3. A read that is handed no scope name applies no status filter. Whatever the page and
  the limit, the answer is either the storage engine's refusal of a negative limit or
  offset, or the page cut from all the stored posts, newest first, whatever their status,
  with the count taken over all the stored posts. With a limit of at least the number of
  stored posts, page 1 holds every stored post.
\<close>

theorem omitted_scope_reads_unfiltered:
  "listContent d None page limit =
     (if limit < 0 \<or> (page - 1) * limit < 0
      then Failure 500 (DatabaseError ''LIMIT/OFFSET must not be negative'')
      else Json 200
             \<lparr>pg_posts = map (include_User_Tag d)
                           (take (nat limit)
                              (drop (nat ((page - 1) * limit)) (newest_first (posts d)))),
              pg_totalPages = ceil_div (sum_list (map (join_rows d) (posts d))) limit,
              pg_currentPage = page\<rparr>)
   \<and> (int (length (posts d)) \<le> limit \<longrightarrow>
        (\<exists>pg. listContent d None 1 limit = Json 200 pg
              \<and> set (map pv_post (pg_posts pg)) = set (posts d)))"
proof -
  have all: "filter (in_scope None) (posts d) = posts d"
    by (simp add: in_scope_def)
  have sc: "Post_scope None = Inr None"
    by (simp add: Post_scope_def)
  have empty: "posts d = []" if "sum_list (map (join_rows d) (posts d)) = 0"
    using that by (rule join_rows_positive)
  have first: "listContent d None page limit =
     (if limit < 0 \<or> (page - 1) * limit < 0
      then Failure 500 (DatabaseError ''LIMIT/OFFSET must not be negative'')
      else Json 200
             \<lparr>pg_posts = map (include_User_Tag d)
                           (take (nat limit)
                              (drop (nat ((page - 1) * limit)) (newest_first (posts d)))),
              pg_totalPages = ceil_div (sum_list (map (join_rows d) (posts d))) limit,
              pg_currentPage = page\<rparr>)" for page limit
    using empty
    by (auto simp: listContent_def sc Post_findAndCountAll_def all Let_def newest_first_def)
  have second: "\<exists>pg. listContent d None 1 limit = Json 200 pg
              \<and> set (map pv_post (pg_posts pg)) = set (posts d)"
    if "int (length (posts d)) \<le> limit"
  proof -
    from that have tk: "take (nat limit) (newest_first (posts d)) = newest_first (posts d)"
      by (simp add: newest_first_def)
    have "pv_post ` include_User_Tag d ` A = A" for A
      by (auto simp: include_User_Tag_def image_iff)
    then have st: "pv_post ` include_User_Tag d ` set (newest_first (posts d)) = set (posts d)"
      by (simp add: newest_first_def)
    from that have "\<not> limit < 0" by simp
    with tk st show ?thesis
      by (simp add: first del: set_map) (simp add: image_image[symmetric] del: image_image)
  qed
  from first second show ?thesis by blast
qed

text \<open>
  The theorem at the store with one post of each status, page 1 of size 10: the posts
  of all three statuses are returned.
\<close>

theorem omitted_scope_reads_unfiltered_witness:
  "int (length (posts store_mixed)) \<le> 10
   \<and> listContent store_mixed None 1 10 =
       Json 200 \<lparr>pg_posts = [view post_archived [], view post_draft [], view post_active []],
                 pg_totalPages = Some 1, pg_currentPage = 1\<rparr>
   \<and> (\<exists>pg. listContent store_mixed None 1 10 = Json 200 pg
           \<and> set (map pv_post (pg_posts pg)) = set (posts store_mixed))"
proof -
  have h: "int (length (posts store_mixed)) \<le> 10"
    by (simp add: store_mixed_def)
  have "listContent store_mixed None 1 10 =
      Json 200
        \<lparr>pg_posts = map (include_User_Tag store_mixed)
                      (take (nat 10) (drop (nat ((1 - 1) * 10)) (newest_first (posts store_mixed)))),
         pg_totalPages = ceil_div (sum_list (map (join_rows store_mixed) (posts store_mixed))) 10,
         pg_currentPage = 1\<rparr>"
    using omitted_scope_reads_unfiltered[of store_mixed 1 10] by simp
  then have r: "listContent store_mixed None 1 10 =
       Json 200 \<lparr>pg_posts = [view post_archived [], view post_draft [], view post_active []],
                 pg_totalPages = Some 1, pg_currentPage = 1\<rparr>"
    by (simp add: newest_first_def join_rows_def Post_tags_def include_User_Tag_def
        User_findByPk_def ceil_div_code store_mixed_def store_alice_def alice_def
        post_active_def post_draft_def post_archived_def view_def)
  have "\<exists>pg. listContent store_mixed None 1 10 = Json 200 pg
           \<and> set (map pv_post (pg_posts pg)) = set (posts store_mixed)"
    using omitted_scope_reads_unfiltered[of store_mixed 1 10] h by blast
  with h r show ?thesis by blast
qed

subsection \<open>C4: page 2 of five active posts\<close>

text \<open>
  C4. The claim: with exactly five active posts stored, \<open>status = 'active'\<close>, \<open>page = 2\<close> and
  \<open>limit = 2\<close> give two rows, newest first, \<open>currentPage = 2\<close> and \<open>totalPages = 3\<close>. The rows
  and the page number are as claimed, but \<open>totalPages\<close> is computed from a count of join
  rows: in the store below the first of the five posts carries three tags, the count is
  7 and the answer says \<open>totalPages = 4\<close>. (\<open>page_two_of_five_untagged\<close> above is the claim
  for posts with at most one tag each, where it holds.)
\<close>

theorem five_active_posts_four_pages:
  "getAllPosts store_five page_two =
     Json 200 \<lparr>pg_posts = [view (active_post 3) [], view (active_post 2) []],
               pg_totalPages = Some 4, pg_currentPage = 2\<rparr>"
  by (simp add: getAllPosts_defs store_five_def store_alice_def alice_def
      active_post_def page_two_def view_def tag_a_def tag_b_def tag_c_def)

subsection \<open>C5: one user per email\<close>

text \<open>
  C5. A user creation whose email is the email of a stored user is answered with 400 and
  a validation error, and the \<open>Users\<close> table is left as it was; in every reachable store
  no two users have the same email.
\<close>

theorem duplicate_email_rejected:
  assumes "reachable d"
  shows "(\<forall>e b u. u \<in> set (users d) \<and> ub_email b = JStr (u_email u) \<longrightarrow>
            (\<exists>err d'. createUser e d b = (Failure 400 err, d') \<and> is_validation_error err
                       \<and> users d' = users d))
         \<and> distinct (map u_email (users d))"
proof -
  have "distinct (map u_email (users d))"
    using reachable_users_ok[OF assms] by (simp add: users_ok_def)
  moreover have "\<forall>e b u. u \<in> set (users d) \<and> ub_email b = JStr (u_email u) \<longrightarrow>
            (\<exists>err d'. createUser e d b = (Failure 400 err, d') \<and> is_validation_error err
                       \<and> users d' = users d)"
    using createUser_duplicate by blast
  ultimately show ?thesis by blast
qed

theorem duplicate_email_rejected_witness:
  "reachable store_alice
   \<and> createUser env0 store_alice alice_body =
       (Failure 400 (UniqueConstraintError ''email''), store_alice\<lparr>userSeq := 3\<rparr>)
   \<and> distinct (map u_email (users store_alice))"
proof -
  have "distinct (map u_email (users store_alice))"
    using duplicate_email_rejected[OF reachable_store_alice] by blast
  moreover have "createUser env0 store_alice alice_body =
       (Failure 400 (UniqueConstraintError ''email''), store_alice\<lparr>userSeq := 3\<rparr>)"
    by (simp add: createUser_def User_create_def env0_def alice_body_def store_alice_def alice_def)
  ultimately show ?thesis using reachable_store_alice by simp
qed


subsection \<open>C6: adding and removing a tag\<close>




subsection \<open>C7: updating a post with a short title\<close>

text \<open>
  C7. The claim: an update whose title has fewer than five characters is refused and the
  stored row is unchanged. The guard \<open>title && title.length < 5\<close> is skipped for the empty
  title, which is falsy: here Alice's post is updated with the empty title, the answer is
  200 and the stored title is now empty. (\<open>updatePost_short_title_rejected\<close> above is the
  claim for titles of one to four characters, where it holds.)
\<close>

theorem updatePost_accepts_empty_title:
  "updatePost store_hello 1
     \<lparr>upb_title = JStr [], upb_content = JUndefined, upb_status = JUndefined\<rparr> =
     (Json 200 (Some (hello\<lparr>p_title := []\<rparr>)),
      store_hello\<lparr>posts := [hello\<lparr>p_title := []\<rparr>]\<rparr>)"
  by (simp add: updatePost_def Post_update_def title_too_short_def post_assign_def
      Post_findByPk_def store_hello_def store_alice_def alice_def hello_def)

subsection \<open>C8: reading back the tags of a new post\<close>

text \<open>
  C8. In every reachable store, when \<open>createPost\<close> with the tags \<open>['a', 'b']\<close> succeeds
  with the post \<open>p\<close>, then \<open>getPostById\<close> for the id of \<open>p\<close> in the resulting store answers
  200 with \<open>p\<close>, and the names of the tags it carries are exactly \<open>a\<close> and \<open>b\<close>.
\<close>

theorem created_post_reads_back_tags:
  assumes "reachable d"
    and "pb_tags b = Some [JStr ''a'', JStr ''b'']"
    and "createPost e d b = (Json 201 p, d')"
  shows "\<exists>v. getPostById d' (p_id p) = Json 200 v \<and> pv_post v = p
             \<and> set (map t_name (pv_tags v)) = {''a'', ''b''}"
  using createPost_tags_read_back[OF reachable_store_ok[OF assms(1)] assms(2,3)] .

text \<open>The theorem at Alice's post with the tags \<open>a\<close> and \<open>b\<close>.\<close>

theorem created_post_reads_back_tags_witness:
  "reachable store_alice
   \<and> pb_tags (hello_body\<lparr>pb_tags := Some [JStr ''a'', JStr ''b'']\<rparr>) =
       Some [JStr ''a'', JStr ''b'']
   \<and> createPost env0 store_alice (hello_body\<lparr>pb_tags := Some [JStr ''a'', JStr ''b'']\<rparr>) =
       (Json 201 hello, store_hello_ab)
   \<and> (\<exists>v. getPostById store_hello_ab (p_id hello) = Json 200 v \<and> pv_post v = hello
           \<and> set (map t_name (pv_tags v)) = {''a'', ''b''})"
proof -
  let ?b = "hello_body\<lparr>pb_tags := Some [JStr ''a'', JStr ''b'']\<rparr>"
  have tg: "pb_tags ?b = Some [JStr ''a'', JStr ''b'']"
    by simp
  have cr: "createPost env0 store_alice ?b = (Json 201 hello, store_hello_ab)"
    by (simp add: createPost_defs env0_def store_alice_def alice_def hello_body_def
        hello_def store_hello_ab_def store_hello_def tag_a_def tag_b_def)
  from created_post_reads_back_tags[OF reachable_store_alice tg cr] reachable_store_alice tg cr
  show ?thesis by blast
qed

subsection \<open>C9: title and content of a stored post\<close>

text \<open>
  C9, as the code has it. A post whose title or content is absent cannot be written:
  \<open>createPost\<close> with an \<open>undefined\<close> or \<open>null\<close> title or content is answered with 400 and
  the \<open>Posts\<close> table is as before; \<open>updatePost\<close> with a \<open>null\<close> title or content is
  answered with 400 and the store is as before.
\<close>

theorem absent_title_or_content_rejected:
  "(pb_title b \<in> {JUndefined, JNull} \<or> pb_content b \<in> {JUndefined, JNull} \<longrightarrow>
      (\<exists>err d'. createPost e d b = (Failure 400 err, d') \<and> posts d' = posts d))
   \<and> (upb_title ub = JNull \<or> upb_content ub = JNull \<longrightarrow>
      (\<exists>err. updatePost d k ub = (Failure 400 err, d)))"
  by (auto simp: createPost_def Post_create_def transaction_def rollback_def Let_def
      updatePost_def Post_update_def title_too_short_def
      split: option.splits jv.splits)

text \<open>The theorem at Alice's post with a \<open>null\<close> title, and at an update with a \<open>null\<close> title.\<close>

theorem absent_title_or_content_rejected_witness:
  "pb_title (hello_body\<lparr>pb_title := JNull\<rparr>) \<in> {JUndefined, JNull}
   \<and> (\<exists>err d'. createPost env0 store_hello (hello_body\<lparr>pb_title := JNull\<rparr>) =
                  (Failure 400 err, d') \<and> posts d' = posts store_hello)
   \<and> upb_title \<lparr>upb_title = JNull, upb_content = JUndefined, upb_status = JUndefined\<rparr> = JNull
   \<and> (\<exists>err. updatePost store_hello 1
                \<lparr>upb_title = JNull, upb_content = JUndefined, upb_status = JUndefined\<rparr> =
              (Failure 400 err, store_hello))"
proof -
  let ?b = "hello_body\<lparr>pb_title := JNull\<rparr>"
  let ?ub = "\<lparr>upb_title = JNull, upb_content = JUndefined, upb_status = JUndefined\<rparr>"
  have a: "pb_title ?b \<in> {JUndefined, JNull}" and b: "upb_title ?ub = JNull"
    by simp_all
  from absent_title_or_content_rejected[where b = ?b and e = env0 and d = store_hello
      and ub = ?ub and k = 1] a b
  show ?thesis by blast
qed

text \<open>
  The claim as stated (no stored post has an empty title or content) fails: the columns
  are declared \<open>allowNull: false\<close> and nothing more, so Alice's post with the empty title
  is created and stored.
\<close>

theorem createPost_stores_empty_title:
  "createPost env0 store_alice (hello_body\<lparr>pb_title := JStr []\<rparr>) =
     (Json 201 (hello\<lparr>p_title := []\<rparr>),
      store_alice\<lparr>posts := [hello\<lparr>p_title := []\<rparr>], postSeq := 2,
                   console := console store_alice @
                     [PostCreated ''Alice'' ''Johnson'' [] (Some Draft)]\<rparr>)"
  by (simp add: createPost_defs env0_def store_alice_def alice_def
      hello_body_def hello_def)

subsection \<open>C10: unknown scope names\<close>

text \<open>
  C10, as the code has it. For every non-empty scope name other than \<open>active\<close>, \<open>draft\<close>
  and \<open>archived\<close> that is neither the ORM's reserved name \<open>defaultScope\<close> nor the name of a
  property the \<open>scopes\<close> object inherits from \<open>Object.prototype\<close>, \<open>getAllPosts\<close> fails with
  the ORM's scope error for that name, answered with 500.
\<close>

theorem unknown_scope_fails:
  assumes "s \<noteq> []"
    and "s \<notin> {''active'', ''draft'', ''archived'', ''defaultScope''}"
    and "s \<notin> set Object_prototype_names"
  shows "getAllPosts d (q\<lparr>q_status := Some s\<rparr>) = Failure 500 (ScopeError s)"
  using assms
  by (simp add: getAllPosts_def listContent_def Post_scope_def scopes_def
      Object_prototype_names_def Let_def)

text \<open>The theorem at the scope name \<open>published\<close>.\<close>

theorem unknown_scope_fails_witness:
  "''published'' \<noteq> []
   \<and> ''published'' \<notin> {''active'', ''draft'', ''archived'', ''defaultScope''}
   \<and> ''published'' \<notin> set Object_prototype_names
   \<and> getAllPosts store_mixed (no_query\<lparr>q_status := Some ''published''\<rparr>) =
       Failure 500 (ScopeError ''published'')"
proof -
  have h: "''published'' \<noteq> []"
    "''published'' \<notin> {''active'', ''draft'', ''archived'', ''defaultScope''}"
    "''published'' \<notin> set Object_prototype_names"
    by (simp_all add: Object_prototype_names_def inherited_truthy_def inherited_throwing_def)
  from unknown_scope_fails[OF h, of store_mixed no_query] h show ?thesis by blast
qed

text \<open>
  The claim as stated (every name other than the three fails, none is read unfiltered)
  fails at the empty name, which \<open>?status=\<close> sends: the posts of all three statuses are
  returned.
\<close>

theorem empty_status_reads_unfiltered:
  "getAllPosts store_mixed (no_query\<lparr>q_status := Some []\<rparr>) =
     Json 200 \<lparr>pg_posts = [view post_archived [], view post_draft [], view post_active []],
               pg_totalPages = Some 1, pg_currentPage = 1\<rparr>"
  by (simp add: getAllPosts_defs store_mixed_def store_alice_def alice_def
      post_active_def post_draft_def post_archived_def no_query_def view_def)

text \<open>
  The two other kinds of name the statement leaves out are read unfiltered in the same
  way: the reserved name \<open>defaultScope\<close>, and \<open>constructor\<close>, which the \<open>scopes\<close> object
  inherits.
\<close>

lemma defaultScope_reads_unfiltered:
  "getAllPosts store_mixed (no_query\<lparr>q_status := Some ''defaultScope''\<rparr>) =
     Json 200 \<lparr>pg_posts = [view post_archived [], view post_draft [], view post_active []],
               pg_totalPages = Some 1, pg_currentPage = 1\<rparr>"
  by (simp add: getAllPosts_defs store_mixed_def store_alice_def alice_def
      post_active_def post_draft_def post_archived_def no_query_def view_def)

lemma constructor_reads_unfiltered:
  "getAllPosts store_mixed (no_query\<lparr>q_status := Some ''constructor''\<rparr>) =
     Json 200 \<lparr>pg_posts = [view post_archived [], view post_draft [], view post_active []],
               pg_totalPages = Some 1, pg_currentPage = 1\<rparr>"
  by (simp add: getAllPosts_defs store_mixed_def store_alice_def alice_def
      post_active_def post_draft_def post_archived_def no_query_def view_def)

end
